theory Spec2Isabelle
  imports Main "HOL-Library.AList" "HOL-Library.Sublist" "HOL-Library.Word"
begin

section \<open>Go strings and the library functions the proxy calls\<close>

text \<open>
  A Go string is a sequence of bytes, here a \<^typ>\<open>string\<close>. The program calls
  \<^verbatim>\<open>strings.HasSuffix\<close>, \<^verbatim>\<open>strings.Split\<close> and \<^verbatim>\<open>strings.SplitN\<close>, the last two only with
  a one-byte separator, so the separator is a \<^typ>\<open>char\<close>.
\<close>

text \<open>An index or slice expression out of range, or \<^verbatim>\<open>rand.Intn\<close> on a bound that is not
  positive, panics.\<close>

datatype go_panic = IndexOutOfRange | InvalidArgument

definition go_index :: "'a list \<Rightarrow> nat \<Rightarrow> go_panic + 'a" where
  "go_index xs i = (if i < length xs then Inr (xs ! i) else Inl IndexOutOfRange)"

text \<open>\<^verbatim>\<open>len(s) >= len(suffix) && s[len(s)-len(suffix):] == suffix\<close>\<close>

definition HasSuffix :: "string \<Rightarrow> string \<Rightarrow> bool" where
  "HasSuffix s suff \<longleftrightarrow>
     length s \<ge> length suff \<and> drop (length s - length suff) s = suff"

text \<open>\<^verbatim>\<open>strings.SplitN(s, sep, n)\<close> for \<open>n \<ge> 0\<close>: at most \<open>n\<close> pieces, the last one the
  unsplit rest; \<open>n = 0\<close> gives no piece at all.\<close>

fun SplitN :: "string \<Rightarrow> char \<Rightarrow> nat \<Rightarrow> string list" where
  "SplitN s sep 0 = []"
| "SplitN s sep (Suc 0) = [s]"
| "SplitN [] sep (Suc (Suc n)) = [[]]"
| "SplitN (c # cs) sep (Suc (Suc n)) =
     (if c = sep then [] # SplitN cs sep (Suc n)
      else (case SplitN cs sep (Suc (Suc n)) of
              [] \<Rightarrow> [[c]]
            | p # ps \<Rightarrow> (c # p) # ps))"

text \<open>\<^verbatim>\<open>strings.Split(s, sep)\<close>: all the pieces between separators; the empty string gives
  one empty piece.\<close>

fun Split :: "string \<Rightarrow> char \<Rightarrow> string list" where
  "Split [] sep = [[]]"
| "Split (c # cs) sep =
     (if c = sep then [] # Split cs sep
      else (case Split cs sep of
              [] \<Rightarrow> [[c]]
            | p # ps \<Rightarrow> (c # p) # ps))"

text \<open>\<^verbatim>\<open>IndexByte\<close> and \<^verbatim>\<open>LastIndexByte\<close>: the position of the first and of the last
  occurrence of a byte; \<open>None\<close> is Go's \<open>-1\<close>.\<close>

fun IndexByte :: "string \<Rightarrow> char \<Rightarrow> nat option" where
  "IndexByte [] c = None"
| "IndexByte (x # xs) c =
     (if x = c then Some 0 else map_option Suc (IndexByte xs c))"

fun LastIndexByte :: "string \<Rightarrow> char \<Rightarrow> nat option" where
  "LastIndexByte [] c = None"
| "LastIndexByte (x # xs) c =
     (case LastIndexByte xs c of
        Some i \<Rightarrow> Some (Suc i)
      | None \<Rightarrow> (if x = c then Some 0 else None))"

text \<open>
  \<^verbatim>\<open>net.SplitHostPort\<close> of the Go standard library, which the program calls on route
  targets and on the client's address. It splits \<^verbatim>\<open>host:port\<close>, \<^verbatim>\<open>[host]:port\<close> at the
  last colon and returns an \<^verbatim>\<open>AddrError\<close> (with empty host and port) otherwise.
\<close>

datatype AddrError = AddrError (Err: string) (Addr: string)

definition missingPort :: string where
  "missingPort = ''missing port in address''"

definition tooManyColons :: string where
  "tooManyColons = ''too many colons in address''"

definition SplitHostPort :: "string \<Rightarrow> AddrError + (string \<times> string)" where
  "SplitHostPort hostport =
     (case LastIndexByte hostport CHR '':'' of
        None \<Rightarrow> Inl (AddrError missingPort hostport)
      | Some i \<Rightarrow>
          let rest = (\<lambda>host j k.
                if IndexByte (drop j hostport) CHR ''['' \<noteq> None
                then Inl (AddrError ''unexpected '[' in address'' hostport)
                else if IndexByte (drop k hostport) CHR '']'' \<noteq> None
                then Inl (AddrError ''unexpected ']' in address'' hostport)
                else Inr (host, drop (i + 1) hostport))
          in
          if hostport ! 0 = CHR ''[''   \<comment> \<open>not empty: it holds a colon\<close>
          then (case IndexByte hostport CHR '']'' of
                  None \<Rightarrow> Inl (AddrError ''missing ']' in address'' hostport)
                | Some e \<Rightarrow>
                    if e + 1 = length hostport
                    then Inl (AddrError missingPort hostport)
                    else if e + 1 = i
                    then rest (take (e - 1) (drop 1 hostport)) 1 (e + 1)
                    else if hostport ! (e + 1) = CHR '':''
                    then Inl (AddrError tooManyColons hostport)
                    else Inl (AddrError missingPort hostport))
          else (let host = take i hostport in
                if IndexByte host CHR '':'' \<noteq> None
                then Inl (AddrError tooManyColons hostport)
                else rest host 0 0))"


section \<open>The data of the proxy\<close>

text \<open>
  A question of a DNS message and the message itself, as far as the proxy reads them:
  the proxy looks at the questions only and hands the message on as a whole.
\<close>

record Question =
  Name :: string
  Qtype :: "16 word"
  Qclass :: "16 word"

record Msg =
  Id :: "16 word"
  Question :: "Question list"
  Answer :: "string list"

definition TypeIXFR :: "16 word" where
  "TypeIXFR = 251"

definition TypeAXFR :: "16 word" where
  "TypeAXFR = 252"

text \<open>
  The client's address \<^verbatim>\<open>w.RemoteAddr()\<close> is a \<^verbatim>\<open>net.Addr\<close>: the proxy asks whether it is
  a \<^verbatim>\<open>*net.TCPAddr\<close> and reads its \<^verbatim>\<open>String()\<close>, which each constructor carries.
\<close>

datatype net_Addr = TCPAddr string | UDPAddr string | OtherAddr string

fun addr_String :: "net_Addr \<Rightarrow> string" where
  "addr_String (TCPAddr s) = s"
| "addr_String (UDPAddr s) = s"
| "addr_String (OtherAddr s) = s"

fun is_TCPAddr :: "net_Addr \<Rightarrow> bool" where
  "is_TCPAddr (TCPAddr s) = True"
| "is_TCPAddr (UDPAddr s) = False"
| "is_TCPAddr (OtherAddr s) = False"

text \<open>The package variables that \<^verbatim>\<open>main\<close> sets before the servers start: the routing
  table, a Go map held as its entries with distinct keys, and the allow-list.\<close>

record config =
  routes :: "(string \<times> string) list"
  transferIPs :: "string list"

definition publicServer :: "string list" where
  "publicServer =
    [''1.1.1.1:53'', ''8.8.8.8:53'', ''8.8.4.4:53'', ''209.244.0.3'', ''209.244.0.4'',
     ''64.6.64.6'', ''64.6.65.6'',
     ''9.9.9.9:53'', ''149.112.112.112:53'', ''84.200.69.80:53'', ''84.200.70.40:53'',
     ''8.26.56.26:53'', ''8.20.247.20:53'', ''208.67.222.222:53'',
     ''208.67.220.220'', ''199.85.126.10:53'', ''199.85.127.10:53'', ''81.218.119.11:53'',
     ''209.88.198.133:53'', ''195.46.39.39:53'', ''195.46.39.40:53'',
     ''69.195.152.204:53'', ''23.94.60.240:53'', ''208.76.50.50:53'', ''208.76.51.51:53'',
     ''216.146.35.35:53'', ''216.146.36.36:53'',
     ''37.235.1.174:53'', ''37.235.1.177:53'', ''198.101.242.72:53'', ''23.253.163.53:53'',
     ''77.88.8.8:53'', ''77.88.8.1:53'', ''91.239.100.100:53'']"

text \<open>
  What the handler does to the outside is the sequence of its calls into the DNS library:
  \<^verbatim>\<open>dns.HandleFailed(w, req)\<close> (the library writes a SERVFAIL reply to the client),
  \<^verbatim>\<open>Client{Net: transport}.Exchange(req, addr)\<close>, \<^verbatim>\<open>w.WriteMsg(resp)\<close>, and for a
  transfer \<^verbatim>\<open>Transfer.In(req, addr)\<close> and \<^verbatim>\<open>Transfer.Out(w, req, c)\<close>.
\<close>

datatype event =
    HandleFailed Msg
  | Exchange string Msg string
  | WriteMsg Msg
  | Transfer_In Msg string
  | Transfer_Out Msg "string list list"

text \<open>
  What the outside answers, and the two choices the Go runtime makes: the order in which
  a \<^verbatim>\<open>range\<close> visits the entries of the routing table, and the random source behind
  \<^verbatim>\<open>rand.Intn\<close>. The envelopes of a transfer are lists of records.
\<close>

record world =
  range_order :: "(string \<times> string) list"
  rand_src :: nat
  Exchange_result :: "string \<Rightarrow> Msg \<Rightarrow> string \<Rightarrow> string + Msg"
  In_result :: "Msg \<Rightarrow> string \<Rightarrow> string + string list list"
  Out_result :: "Msg \<Rightarrow> string list list \<Rightarrow> string option"

text \<open>A \<^verbatim>\<open>range\<close> over a map visits every entry once, in an order of the runtime's
  choice.\<close>

definition is_range_order :: "(string \<times> string) list \<Rightarrow> (string \<times> string) list \<Rightarrow> bool" where
  "is_range_order m order \<longleftrightarrow> distinct (map fst order) \<and> set order = set m"

section \<open>The program\<close>

text \<open>\<^verbatim>\<open>rand.Intn(n)\<close> returns a number in \<open>[0, n)\<close> and panics when \<open>n \<le> 0\<close>. The
  number is the random source reduced modulo \<open>n\<close>: every source gives a number in range,
  and every number in range comes from some source.\<close>

definition Intn :: "nat \<Rightarrow> nat \<Rightarrow> go_panic + nat" where
  "Intn src n = (if n = 0 then Inl InvalidArgument else Inr (src mod n))"

definition randomPublicServer :: "nat \<Rightarrow> go_panic + string" where
  "randomPublicServer src =
     (case Intn src (length publicServer) of
        Inl p \<Rightarrow> Inl p
      | Inr i \<Rightarrow> go_index publicServer i)"

definition validHostPort :: "string \<Rightarrow> bool" where
  "validHostPort s =
     (case SplitHostPort s of
        Inl err \<Rightarrow> False
      | Inr (host, port) \<Rightarrow> if host = [] \<or> port = [] then False else True)"

text \<open>The loop of \<^verbatim>\<open>main\<close> over the pieces of the \<^verbatim>\<open>-route\<close> flag; \<^verbatim>\<open>log.Fatal\<close> ends the
  program.\<close>

datatype fatal = Fatal string

fun main_routes :: "string list \<Rightarrow> (string \<times> string) list \<Rightarrow> fatal + (string \<times> string) list" where
  "main_routes [] m = Inr m"
| "main_routes (s # ss) m =
     (case SplitN s CHR ''='' 2 of
        [s0, s1] \<Rightarrow>
          if \<not> validHostPort s1
          then Inl (Fatal ''invalid -route, must be list of domain=host:port'')
          else main_routes ss
                 (AList.update (if \<not> HasSuffix s0 ''.'' then s0 @ ''.'' else s0) s1 m)
      | _ \<Rightarrow> Inl (Fatal ''invalid -route, must be list of domain=host:port''))"

text \<open>\<^verbatim>\<open>main\<close> up to the start of the servers, from the values of the flags
  \<^verbatim>\<open>-route\<close> and \<^verbatim>\<open>-allow-transfer\<close>.\<close>

definition main_config :: "string \<Rightarrow> string \<Rightarrow> fatal + config" where
  "main_config routeList allowTransfer =
     (case (if routeList \<noteq> [] then main_routes (Split routeList CHR '','') [] else Inr []) of
        Inl f \<Rightarrow> Inl f
      | Inr m \<Rightarrow> Inr \<lparr>routes = m, transferIPs = Split allowTransfer CHR '',''\<rparr>)"

fun isTransfer_loop :: "Question list \<Rightarrow> bool" where
  "isTransfer_loop [] = False"
| "isTransfer_loop (q # qs) =
     (if Qtype q = TypeIXFR \<or> Qtype q = TypeAXFR then True else isTransfer_loop qs)"

definition isTransfer :: "Msg \<Rightarrow> bool" where
  "isTransfer req = isTransfer_loop (Question req)"

fun allowed_loop :: "string list \<Rightarrow> string \<Rightarrow> bool" where
  "allowed_loop [] remote = False"
| "allowed_loop (ip # ips) remote = (if ip = remote then True else allowed_loop ips remote)"

text \<open>\<^verbatim>\<open>remote, _, _ := net.SplitHostPort(w.RemoteAddr().String())\<close>: the port and the
  error are dropped, and on an error the host is the empty string.\<close>

definition remote_host :: "net_Addr \<Rightarrow> string" where
  "remote_host w =
     (case SplitHostPort (addr_String w) of
        Inl err \<Rightarrow> []
      | Inr (host, port) \<Rightarrow> host)"

definition allowed :: "config \<Rightarrow> net_Addr \<Rightarrow> Msg \<Rightarrow> bool" where
  "allowed cfg w req =
     (if \<not> isTransfer req then True
      else let remote = remote_host w in allowed_loop (transferIPs cfg) remote)"

definition proxy :: "world \<Rightarrow> string \<Rightarrow> net_Addr \<Rightarrow> Msg \<Rightarrow> event list" where
  "proxy wd addr w req =
     (let transport = (if is_TCPAddr w then ''tcp'' else ''udp'') in
      if isTransfer req
      then (if transport \<noteq> ''tcp'' then [HandleFailed req]
            else (case In_result wd req addr of
                    Inl err \<Rightarrow> [Transfer_In req addr, HandleFailed req]
                  | Inr c \<Rightarrow>
                      (case Out_result wd req c of
                         Some err \<Rightarrow> [Transfer_In req addr, Transfer_Out req c, HandleFailed req]
                       | None \<Rightarrow> [Transfer_In req addr, Transfer_Out req c])))
      else (case Exchange_result wd transport req addr of
              Inl err \<Rightarrow> [Exchange transport req addr, HandleFailed req]
            | Inr resp \<Rightarrow> [Exchange transport req addr, WriteMsg resp]))"

text \<open>The loop of \<^verbatim>\<open>route\<close> over the routing table: the target of the first entry, in the
  order of the visit, whose key the name ends with.\<close>

fun route_loop :: "(string \<times> string) list \<Rightarrow> string \<Rightarrow> string option" where
  "route_loop [] qname = None"
| "route_loop ((name, addr) # rest) qname =
     (if HasSuffix qname name then Some addr else route_loop rest qname)"

text \<open>The upstream that \<^verbatim>\<open>route\<close> hands to \<^verbatim>\<open>proxy\<close>: the loop's, or else
  \<^verbatim>\<open>randomPublicServer()\<close>.\<close>

definition select_upstream :: "(string \<times> string) list \<Rightarrow> nat \<Rightarrow> string \<Rightarrow> go_panic + string" where
  "select_upstream order src qname =
     (case route_loop order qname of
        Some addr \<Rightarrow> Inr addr
      | None \<Rightarrow> randomPublicServer src)"

definition route :: "config \<Rightarrow> world \<Rightarrow> net_Addr \<Rightarrow> Msg \<Rightarrow> go_panic + event list" where
  "route cfg wd w req =
     (if length (Question req) = 0 \<or> \<not> allowed cfg w req then Inr [HandleFailed req]
      else (case go_index (Question req) 0 of
              Inl p \<Rightarrow> Inl p
            | Inr q \<Rightarrow>
                (case select_upstream (range_order wd) (rand_src wd) (Name q) of
                   Inl p \<Rightarrow> Inl p
                 | Inr addr \<Rightarrow> Inr (proxy wd addr w req))))"

text \<open>Whether a run contacted an upstream.\<close>

fun is_upstream_call :: "event \<Rightarrow> bool" where
  "is_upstream_call (Exchange t r a) = True"
| "is_upstream_call (Transfer_In r a) = True"
| "is_upstream_call _ = False"

section \<open>Example inputs\<close>

text \<open>A transfer query, an address query, and a query with two questions of which the
  second asks for a transfer.\<close>

definition axfr_query :: Msg where
  "axfr_query =
     \<lparr>Id = 7, Question = [\<lparr>Name = ''example.com.'', Qtype = TypeAXFR, Qclass = 1\<rparr>],
      Answer = []\<rparr>"

definition a_query :: Msg where
  "a_query =
     \<lparr>Id = 8, Question = [\<lparr>Name = ''www.example.com.'', Qtype = 1, Qclass = 1\<rparr>],
      Answer = []\<rparr>"

definition mixed_query :: Msg where
  "mixed_query =
     \<lparr>Id = 9, Question = [\<lparr>Name = ''example.com.'', Qtype = 6, Qclass = 1\<rparr>,
                           \<lparr>Name = ''example.com.'', Qtype = TypeIXFR, Qclass = 1\<rparr>],
      Answer = []\<rparr>"

definition notexample_query :: Msg where
  "notexample_query =
     \<lparr>Id = 11, Question = [\<lparr>Name = ''notexample.com.'', Qtype = 1, Qclass = 1\<rparr>],
      Answer = []\<rparr>"

definition empty_query :: Msg where
  "empty_query = \<lparr>Id = 10, Question = [], Answer = []\<rparr>"

text \<open>The configuration of \<^verbatim>\<open>-route example.com=10.0.0.1:53 -allow-transfer 1.2.3.4,::1\<close>.\<close>

definition example_config :: config where
  "example_config =
     \<lparr>routes = [(''example.com.'', ''10.0.0.1:53'')], transferIPs = [''1.2.3.4'', ''::1'']\<rparr>"

text \<open>A world in which every upstream answers, and one in which none can be reached.\<close>

definition answer_of :: "Msg \<Rightarrow> Msg" where
  "answer_of req = req\<lparr>Answer := [''192.0.2.1'']\<rparr>"

definition answering_world :: world where
  "answering_world =
     \<lparr>range_order = [(''example.com.'', ''10.0.0.1:53'')], rand_src = 3,
      Exchange_result = (\<lambda>transport req addr. Inr (answer_of req)),
      In_result = (\<lambda>req addr. Inr [[''SOA''], [''A'', ''B''], [''SOA'']]),
      Out_result = (\<lambda>req c. None)\<rparr>"

definition unreachable_world :: world where
  "unreachable_world =
     \<lparr>range_order = [(''example.com.'', ''10.0.0.1:53'')], rand_src = 3,
      Exchange_result = (\<lambda>transport req addr. Inl ''i/o timeout''),
      In_result = (\<lambda>req addr. Inl ''connection refused''),
      Out_result = (\<lambda>req c. Some ''broken pipe'')\<rparr>"

text \<open>A string without the bytes that \<^verbatim>\<open>net.SplitHostPort\<close> treats specially.\<close>

definition plain :: "string \<Rightarrow> bool" where
  "plain s \<longleftrightarrow> CHR '':'' \<notin> set s \<and> CHR ''['' \<notin> set s \<and> CHR '']'' \<notin> set s"

section \<open>Facts about the loops\<close>

lemma HasSuffix_iff_suffix: "HasSuffix s suff \<longleftrightarrow> suffix suff s"
proof
  assume "HasSuffix s suff"
  then have "s = take (length s - length suff) s @ suff"
    by (metis HasSuffix_def append_take_drop_id)
  then show "suffix suff s" by (metis suffixI)
next
  assume "suffix suff s"
  then obtain pre where "s = pre @ suff" by (auto simp: suffix_def)
  then show "HasSuffix s suff" by (simp add: HasSuffix_def)
qed

lemma isTransfer_loop_iff:
  "isTransfer_loop qs \<longleftrightarrow> (\<exists>q \<in> set qs. Qtype q = TypeAXFR \<or> Qtype q = TypeIXFR)"
  by (induction qs) auto

lemma isTransfer_iff:
  "isTransfer req \<longleftrightarrow> (\<exists>q \<in> set (Question req). Qtype q = TypeAXFR \<or> Qtype q = TypeIXFR)"
  by (simp add: isTransfer_def isTransfer_loop_iff)

lemma allowed_loop_iff: "allowed_loop ips remote \<longleftrightarrow> remote \<in> set ips"
  by (induction ips) auto

lemma route_loop_None_iff:
  "route_loop order qname = None \<longleftrightarrow> (\<forall>(name, addr) \<in> set order. \<not> HasSuffix qname name)"
  by (induction order qname rule: route_loop.induct) auto

lemma route_loop_Some:
  "route_loop order qname = Some addr \<Longrightarrow> \<exists>name. (name, addr) \<in> set order \<and> HasSuffix qname name"
  by (induction order qname rule: route_loop.induct) (auto split: if_splits)

lemma length_publicServer: "length publicServer = 34"
  by (simp add: publicServer_def)

lemma randomPublicServer_eq:
  "randomPublicServer src = Inr (publicServer ! (src mod 34))"
  by (simp add: randomPublicServer_def Intn_def go_index_def length_publicServer)

lemma randomPublicServer_member:
  "\<exists>a \<in> set publicServer. randomPublicServer src = Inr a"
proof -
  have "src mod 34 < length publicServer" by (simp add: length_publicServer)
  then have "publicServer ! (src mod 34) \<in> set publicServer" by (rule nth_mem)
  then show ?thesis by (simp add: randomPublicServer_eq)
qed

lemma select_upstream_total: "\<exists>a. select_upstream order src qname = Inr a"
  using randomPublicServer_member [of src]
  by (auto simp: select_upstream_def split: option.splits)

lemma select_upstream_only_match:
  assumes ord: "is_range_order m order"
    and mem: "(name, addr) \<in> set m"
    and suf: "HasSuffix qname name"
    and others: "\<forall>(name', addr') \<in> set m. name' \<noteq> name \<longrightarrow> \<not> HasSuffix qname name'"
  shows "select_upstream order src qname = Inr addr"
proof -
  from ord have d: "distinct (map fst order)" and s: "set order = set m"
    by (simp_all add: is_range_order_def)
  from mem s suf have "route_loop order qname \<noteq> None"
    by (auto simp: route_loop_None_iff)
  then obtain a where a: "route_loop order qname = Some a" by auto
  then obtain n where n: "(n, a) \<in> set order" "HasSuffix qname n"
    by (auto dest: route_loop_Some)
  with others s have "n = name" by auto
  with n d mem s have "a = addr"
    by (metis eq_key_imp_eq_value)
  with a show ?thesis by (simp add: select_upstream_def)
qed

section \<open>Facts about the configuration and about addresses\<close>

lemma set_update_subset: "set (AList.update k v al) \<subseteq> insert (k, v) (set al)"
  by (induction al) auto

lemma HasSuffix_dot_normalised:
  "HasSuffix (if \<not> HasSuffix s0 ''.'' then s0 @ ''.'' else s0) ''.''"
  by (simp add: HasSuffix_def)

lemma main_routes_keys:
  "main_routes ss m = Inr m' \<Longrightarrow> \<forall>(name, addr) \<in> set m. HasSuffix name ''.''
     \<Longrightarrow> \<forall>(name, addr) \<in> set m'. HasSuffix name ''.''"
proof (induction ss arbitrary: m)
  case Nil
  then show ?case by simp
next
  case (Cons s ss)
  from Cons.prems(1) obtain s0 s1 where sp: "SplitN s CHR ''='' 2 = [s0, s1]"
    and rec: "main_routes ss
        (AList.update (if \<not> HasSuffix s0 ''.'' then s0 @ ''.'' else s0) s1 m) = Inr m'"
    by (auto split: list.splits if_splits)
  let ?k = "if \<not> HasSuffix s0 ''.'' then s0 @ ''.'' else s0"
  have "\<forall>(name, addr) \<in> set (AList.update ?k s1 m). HasSuffix name ''.''"
    using set_update_subset [of ?k s1 m] Cons.prems(2) HasSuffix_dot_normalised [of s0]
    by (auto simp del: AList.update.simps)
  with rec show ?case by (rule Cons.IH)
qed

lemma main_routes_distinct:
  "main_routes ss m = Inr m' \<Longrightarrow> distinct (map fst m) \<Longrightarrow> distinct (map fst m')"
proof (induction ss arbitrary: m)
  case Nil
  then show ?case by simp
next
  case (Cons s ss)
  from Cons.prems(1) obtain s0 s1 where
    rec: "main_routes ss
        (AList.update (if \<not> HasSuffix s0 ''.'' then s0 @ ''.'' else s0) s1 m) = Inr m'"
    by (auto split: list.splits if_splits)
  from Cons.prems(2) have "distinct (map fst
        (AList.update (if \<not> HasSuffix s0 ''.'' then s0 @ ''.'' else s0) s1 m))"
    by (rule distinct_update)
  with rec show ?case by (rule Cons.IH)
qed

lemma main_routes_valid:
  "main_routes ss m = Inr m' \<Longrightarrow> \<forall>(name, addr) \<in> set m. validHostPort addr
     \<Longrightarrow> \<forall>(name, addr) \<in> set m'. validHostPort addr"
proof (induction ss arbitrary: m)
  case Nil
  then show ?case by simp
next
  case (Cons s ss)
  from Cons.prems(1) obtain s0 s1 where ok: "validHostPort s1"
    and rec: "main_routes ss
        (AList.update (if \<not> HasSuffix s0 ''.'' then s0 @ ''.'' else s0) s1 m) = Inr m'"
    by (auto split: list.splits if_splits)
  let ?k = "if \<not> HasSuffix s0 ''.'' then s0 @ ''.'' else s0"
  have "\<forall>(name, addr) \<in> set (AList.update ?k s1 m). validHostPort addr"
    using set_update_subset [of ?k s1 m] Cons.prems(2) ok
    by (auto simp del: AList.update.simps)
  with rec show ?case by (rule Cons.IH)
qed

lemma main_config_routes:
  assumes "main_config routeList allowTransfer = Inr cfg"
  shows "distinct (map fst (routes cfg))"
    and "\<forall>(name, addr) \<in> set (routes cfg). HasSuffix name ''.''"
    and "\<forall>(name, addr) \<in> set (routes cfg). validHostPort addr"
    and "transferIPs cfg = Split allowTransfer CHR '',''"
proof -
  from assms obtain m where m: "(if routeList \<noteq> [] then main_routes (Split routeList CHR '','') [] else Inr []) = Inr m"
    and cfg: "cfg = \<lparr>routes = m, transferIPs = Split allowTransfer CHR '',''\<rparr>"
    by (auto simp: main_config_def split: sum.splits)
  show "distinct (map fst (routes cfg))"
    using m cfg main_routes_distinct [of "Split routeList CHR '',''" "[]" m]
    by (auto split: if_splits)
  show "\<forall>(name, addr) \<in> set (routes cfg). HasSuffix name ''.''"
    using m cfg main_routes_keys [of "Split routeList CHR '',''" "[]" m]
    by (auto split: if_splits)
  show "\<forall>(name, addr) \<in> set (routes cfg). validHostPort addr"
    using m cfg main_routes_valid [of "Split routeList CHR '',''" "[]" m]
    by (auto split: if_splits)
  show "transferIPs cfg = Split allowTransfer CHR '',''"
    using cfg by simp
qed

lemma IndexByte_None_iff: "IndexByte s c = None \<longleftrightarrow> c \<notin> set s"
  by (induction s) auto

lemma LastIndexByte_None_iff: "LastIndexByte s c = None \<longleftrightarrow> c \<notin> set s"
  by (induction s) (auto split: option.splits)

lemma LastIndexByte_append:
  "c \<notin> set p \<Longrightarrow> LastIndexByte (h @ c # p) c = Some (length h)"
  by (induction h) (auto simp: LastIndexByte_None_iff split: option.splits)

lemma SplitHostPort_plain:
  assumes h: "CHR '':'' \<notin> set h" "CHR ''['' \<notin> set h" "CHR '']'' \<notin> set h"
    and p: "CHR '':'' \<notin> set p" "CHR ''['' \<notin> set p" "CHR '']'' \<notin> set p"
  shows "SplitHostPort (h @ CHR '':'' # p) = Inr (h, p)"
proof -
  have i: "LastIndexByte (h @ CHR '':'' # p) CHR '':'' = Some (length h)"
    using p(1) by (rule LastIndexByte_append)
  have first: "(h @ CHR '':'' # p) ! 0 \<noteq> CHR ''[''"
    using h(2) by (cases h) auto
  show ?thesis
    using h p first by (simp add: SplitHostPort_def i IndexByte_None_iff)
qed

lemma SplitHostPort_error_no_colon:
  "CHR '':'' \<notin> set s \<Longrightarrow> SplitHostPort s = Inl (AddrError missingPort s)"
  by (simp add: SplitHostPort_def LastIndexByte_None_iff [THEN iffD2])

section \<open>Facts about the handler\<close>

lemma allowed_iff:
  "allowed cfg w req \<longleftrightarrow> (isTransfer req \<longrightarrow> remote_host w \<in> set (transferIPs cfg))"
  by (simp add: allowed_def allowed_loop_iff)

lemma route_denied:
  "length (Question req) = 0 \<or> \<not> allowed cfg w req \<Longrightarrow> route cfg wd w req = Inr [HandleFailed req]"
  by (simp add: route_def)

lemma route_forward:
  assumes "Question req = q # qs" and "allowed cfg w req"
    and "select_upstream (range_order wd) (rand_src wd) (Name q) = Inr addr"
  shows "route cfg wd w req = Inr (proxy wd addr w req)"
  using assms by (simp add: route_def go_index_def)

lemma proxy_transfer_not_tcp:
  "isTransfer req \<Longrightarrow> \<not> is_TCPAddr w \<Longrightarrow> proxy wd addr w req = [HandleFailed req]"
  by (simp add: proxy_def)

lemma remote_host_plain:
  "addr_String w = h @ CHR '':'' # p \<Longrightarrow> plain h \<Longrightarrow> plain p \<Longrightarrow> remote_host w = h"
  by (simp add: remote_host_def plain_def SplitHostPort_plain)

lemma SplitHostPort_empty_host:
  assumes "SplitHostPort s = Inr ([], p)"
  shows "s = CHR '':'' # p \<or> s = CHR ''['' # CHR '']'' # CHR '':'' # p"
proof -
  from assms obtain i where i: "LastIndexByte s CHR '':'' = Some i"
    by (auto simp: SplitHostPort_def split: option.splits)
  have ilt: "i < length s \<and> s ! i = CHR '':''"
    using i
  proof (induction s arbitrary: i)
    case Nil then show ?case by simp
  next
    case (Cons x xs) then show ?case by (auto split: option.splits if_splits)
  qed
  show ?thesis
  proof (cases "s ! 0 = CHR ''[''")
    case False
    with assms i have "take i s = []" and p: "p = drop (i + 1) s"
      by (auto simp: SplitHostPort_def Let_def split: if_splits)
    with ilt have "i = 0" by auto
    with ilt p have "s = CHR '':'' # p"
      by (cases s) auto
    then show ?thesis by simp
  next
    case True
    with assms i obtain e where e: "IndexByte s CHR '']'' = Some e"
      and ei: "e + 1 = i" and h: "take (e - 1) (drop 1 s) = []" and p: "p = drop (i + 1) s"
      by (auto simp: SplitHostPort_def Let_def split: if_splits option.splits)
    from True e have "e \<noteq> 0" by (cases s) (auto split: if_splits)
    have "e < length s \<and> s ! e = CHR '']''"
      using e
    proof (induction s arbitrary: e)
      case Nil then show ?case by simp
    next
      case (Cons x xs) then show ?case by (auto split: if_splits)
    qed
    moreover from h ilt ei \<open>e \<noteq> 0\<close> have "e = 1" by auto
    ultimately have "s ! 1 = CHR '']''" "i = 2" "length s > 2" using ei ilt by auto
    with True ilt p have "s = CHR ''['' # CHR '']'' # CHR '':'' # p"
      by (cases s; cases "tl s"; cases "tl (tl s)") auto
    then show ?thesis by simp
  qed
qed

section \<open>The properties of the specification\<close>

text \<open>
  Claim C8. The classifier reports a query as a zone transfer exactly when at least one of
  its questions has type AXFR or IXFR. It holds for every query, so also for those with at
  least one question. The classifier is a function of the query to a truth value: it
  changes nothing and calls nothing outside.
\<close>
theorem isTransfer_iff_some_question:
  "isTransfer req \<longleftrightarrow> (\<exists>q \<in> set (Question req). Qtype q = TypeAXFR \<or> Qtype q = TypeIXFR)"
  by (simp add: isTransfer_def isTransfer_loop_iff)

theorem isTransfer_iff_some_question_witness:
  "isTransfer mixed_query \<and> \<not> isTransfer a_query \<and> \<not> isTransfer empty_query"
  using isTransfer_iff_some_question [of mixed_query]
    isTransfer_iff_some_question [of a_query]
    isTransfer_iff_some_question [of empty_query]
  by (simp add: mixed_query_def a_query_def empty_query_def TypeAXFR_def TypeIXFR_def)

text \<open>
  Claim C6. For a query without questions the handler calls the failure response at once:
  that is its only action, so no upstream is contacted.
\<close>
theorem route_no_question_fails:
  assumes "length (Question req) = 0"
  shows "route cfg wd w req = Inr [HandleFailed req]
    \<and> (\<forall>tr. route cfg wd w req = Inr tr \<longrightarrow> \<not> list_ex is_upstream_call tr)"
  using assms by (simp add: route_denied)

theorem route_no_question_fails_witness:
  "length (Question empty_query) = 0
    \<and> route example_config answering_world (UDPAddr ''192.0.2.7:4242'') empty_query
        = Inr [HandleFailed empty_query]"
proof -
  have h: "length (Question empty_query) = 0" by (simp add: empty_query_def)
  show ?thesis
    using h route_no_question_fails [OF h, of example_config answering_world "UDPAddr ''192.0.2.7:4242''"]
    by simp
qed

text \<open>
  Claim C2. A transfer query whose client address is not a TCP address gets the failure
  response and nothing else, whatever the allow-list, the routing table and the outside
  are: either the authorizer refuses it, or the forwarder does, before any call to an
  upstream and without any message of a transfer written to the client.
\<close>
theorem transfer_over_udp_fails:
  assumes some: "\<exists>q \<in> set (Question req). Qtype q = TypeAXFR \<or> Qtype q = TypeIXFR"
    and udp: "\<not> is_TCPAddr w"
  shows "route cfg wd w req = Inr [HandleFailed req]
    \<and> proxy wd addr w req = [HandleFailed req]"
proof -
  from some have tr: "isTransfer req" by (simp add: isTransfer_iff)
  note assms = tr udp
  have "route cfg wd w req = Inr [HandleFailed req]"
  proof (cases "length (Question req) = 0 \<or> \<not> allowed cfg w req")
    case True
    then show ?thesis by (rule route_denied)
  next
    case False
    then obtain q qs where q: "Question req = q # qs" by (cases "Question req") auto
    obtain a where "select_upstream (range_order wd) (rand_src wd) (Name q) = Inr a"
      using select_upstream_total by blast
    with q False have "route cfg wd w req = Inr (proxy wd a w req)"
      by (simp add: route_forward)
    with assms show ?thesis by (simp add: proxy_transfer_not_tcp)
  qed
  with assms show ?thesis by (simp add: proxy_transfer_not_tcp)
qed

theorem transfer_over_udp_fails_witness:
  "(\<exists>q \<in> set (Question axfr_query). Qtype q = TypeAXFR \<or> Qtype q = TypeIXFR)
    \<and> \<not> is_TCPAddr (UDPAddr ''1.2.3.4:4242'')
    \<and> allowed example_config (UDPAddr ''1.2.3.4:4242'') axfr_query
    \<and> route example_config answering_world (UDPAddr ''1.2.3.4:4242'') axfr_query
        = Inr [HandleFailed axfr_query]"
proof -
  have h1: "\<exists>q \<in> set (Question axfr_query). Qtype q = TypeAXFR \<or> Qtype q = TypeIXFR"
    by (simp add: axfr_query_def)
  have h2: "\<not> is_TCPAddr (UDPAddr ''1.2.3.4:4242'')" by simp
  have h3: "allowed example_config (UDPAddr ''1.2.3.4:4242'') axfr_query"
    by (simp add: allowed_iff remote_host_def SplitHostPort_def example_config_def)
  show ?thesis
    using h1 h2 h3 transfer_over_udp_fails [OF h1 h2, of example_config answering_world]
    by simp
qed

text \<open>
  Claim C3. For a transfer query the authorizer returns true exactly when the host that
  \<^verbatim>\<open>net.SplitHostPort\<close> gives for the client's address is an entry of the allow-list,
  compared as a string; for an address \<^verbatim>\<open>host:port\<close> without colons or brackets in
  either part that host is the part before the colon. When the authorizer returns false,
  the handler's only action is the failure response: no upstream is contacted.
\<close>
theorem transfer_allowed_iff_host_listed:
  assumes "isTransfer req"
  shows "(allowed cfg w req \<longleftrightarrow> remote_host w \<in> set (transferIPs cfg))
    \<and> (\<forall>h p. addr_String w = h @ CHR '':'' # p \<and> plain h \<and> plain p \<longrightarrow>
          (allowed cfg w req \<longleftrightarrow> h \<in> set (transferIPs cfg)))
    \<and> (\<not> allowed cfg w req \<longrightarrow>
          route cfg wd w req = Inr [HandleFailed req]
          \<and> (\<forall>tr. route cfg wd w req = Inr tr \<longrightarrow> \<not> list_ex is_upstream_call tr))"
  using assms by (auto simp: allowed_iff route_denied remote_host_plain)

theorem transfer_allowed_iff_host_listed_witness:
  "isTransfer axfr_query
    \<and> allowed example_config (TCPAddr ''1.2.3.4:4242'') axfr_query
    \<and> allowed example_config (TCPAddr ''[::1]:4242'') axfr_query
    \<and> \<not> allowed example_config (TCPAddr ''5.6.7.8:4242'') axfr_query
    \<and> route example_config answering_world (TCPAddr ''5.6.7.8:4242'') axfr_query
        = Inr [HandleFailed axfr_query]"
proof -
  have h: "isTransfer axfr_query"
    by (simp add: isTransfer_def axfr_query_def)
  have r1: "remote_host (TCPAddr ''1.2.3.4:4242'') = ''1.2.3.4''"
    by (simp add: remote_host_def SplitHostPort_def)
  have r2: "remote_host (TCPAddr ''[::1]:4242'') = ''::1''"
    by (simp add: remote_host_def SplitHostPort_def)
  have r3: "remote_host (TCPAddr ''5.6.7.8:4242'') = ''5.6.7.8''"
    by (simp add: remote_host_def SplitHostPort_def)
  show ?thesis
    using h r1 r2 r3
      transfer_allowed_iff_host_listed [OF h, of example_config "TCPAddr ''1.2.3.4:4242''" answering_world]
      transfer_allowed_iff_host_listed [OF h, of example_config "TCPAddr ''[::1]:4242''" answering_world]
      transfer_allowed_iff_host_listed [OF h, of example_config "TCPAddr ''5.6.7.8:4242''" answering_world]
    by (simp add: example_config_def)
qed

text \<open>
  Claim C4. Let the routing table hold the route (suffix, upstream), let the name of the
  query's first question end with that suffix, and let no other key of the table be a
  suffix of the name. Then, in whatever order the runtime visits the table, the selector
  chooses that upstream, and an authorized query is handed to the forwarder with it.
\<close>
theorem select_only_matching_route:
  assumes "is_range_order (routes cfg) (range_order wd)"
    and "(name, addr) \<in> set (routes cfg)"
    and "Question req = q # qs"
    and "HasSuffix (Name q) name"
    and "\<forall>(name', addr') \<in> set (routes cfg). name' \<noteq> name \<longrightarrow> \<not> HasSuffix (Name q) name'"
  shows "select_upstream (range_order wd) (rand_src wd) (Name q) = Inr addr
    \<and> (allowed cfg w req \<longrightarrow> route cfg wd w req = Inr (proxy wd addr w req))"
proof -
  have sel: "select_upstream (range_order wd) (rand_src wd) (Name q) = Inr addr"
    using assms(1,2,4,5) by (rule select_upstream_only_match)
  with assms(3) show ?thesis by (simp add: route_forward)
qed

theorem select_only_matching_route_witness:
  "is_range_order (routes example_config) (range_order answering_world)
    \<and> (''example.com.'', ''10.0.0.1:53'') \<in> set (routes example_config)
    \<and> Question a_query = \<lparr>Name = ''www.example.com.'', Qtype = 1, Qclass = 1\<rparr> # []
    \<and> HasSuffix ''www.example.com.'' ''example.com.''
    \<and> select_upstream (range_order answering_world) (rand_src answering_world)
          ''www.example.com.'' = Inr ''10.0.0.1:53''
    \<and> route example_config answering_world (UDPAddr ''192.0.2.7:4242'') a_query
        = Inr [Exchange ''udp'' a_query ''10.0.0.1:53'', WriteMsg (answer_of a_query)]"
proof -
  let ?q = "\<lparr>Name = ''www.example.com.'', Qtype = 1, Qclass = 1\<rparr>"
  have h1: "is_range_order (routes example_config) (range_order answering_world)"
    by (simp add: is_range_order_def example_config_def answering_world_def)
  have h2: "(''example.com.'', ''10.0.0.1:53'') \<in> set (routes example_config)"
    by (simp add: example_config_def)
  have h3: "Question a_query = ?q # []" by (simp add: a_query_def)
  have h4: "HasSuffix (Name ?q) ''example.com.''" by (simp add: HasSuffix_def)
  have h5: "\<forall>(name', addr') \<in> set (routes example_config).
      name' \<noteq> ''example.com.'' \<longrightarrow> \<not> HasSuffix (Name ?q) name'"
    by (simp add: example_config_def)
  have al: "allowed example_config (UDPAddr ''192.0.2.7:4242'') a_query"
    by (simp add: allowed_def isTransfer_def a_query_def TypeAXFR_def TypeIXFR_def)
  have px: "proxy answering_world ''10.0.0.1:53'' (UDPAddr ''192.0.2.7:4242'') a_query
      = [Exchange ''udp'' a_query ''10.0.0.1:53'', WriteMsg (answer_of a_query)]"
    by (simp add: proxy_def isTransfer_def a_query_def TypeAXFR_def TypeIXFR_def answering_world_def)
  show ?thesis
    using h1 h2 h3 h4 al px
      select_only_matching_route [OF h1 h2 h3 h4 h5, of "UDPAddr ''192.0.2.7:4242''"]
    by simp
qed

text \<open>
  Claim C5. The selector returns an address for every table, every random source and
  every name: it never panics, since the pool is not empty and the index is within it.
  When no key of the table is a suffix of the name, the address is a member of the pool.
\<close>
theorem select_falls_back_to_pool:
  "(\<exists>a. select_upstream order src qname = Inr a)
    \<and> (is_range_order m order \<and> (\<forall>(name, addr) \<in> set m. \<not> HasSuffix qname name) \<longrightarrow>
         (\<exists>a \<in> set publicServer. select_upstream order src qname = Inr a))"
proof -
  have "\<exists>a \<in> set publicServer. select_upstream order src qname = Inr a"
    if "is_range_order m order" and "\<forall>(name, addr) \<in> set m. \<not> HasSuffix qname name"
  proof -
    from that have "route_loop order qname = None"
      by (simp add: route_loop_None_iff is_range_order_def)
    then show ?thesis
      using randomPublicServer_member [of src] by (simp add: select_upstream_def)
  qed
  then show ?thesis using select_upstream_total by blast
qed

theorem select_falls_back_to_pool_witness:
  "is_range_order (routes example_config) [(''example.com.'', ''10.0.0.1:53'')]
    \<and> \<not> HasSuffix ''other.net.'' ''example.com.''
    \<and> select_upstream [(''example.com.'', ''10.0.0.1:53'')] 7 ''other.net.'' = Inr ''9.9.9.9:53''
    \<and> ''9.9.9.9:53'' \<in> set publicServer"
proof -
  have h1: "is_range_order (routes example_config) [(''example.com.'', ''10.0.0.1:53'')]"
    by (simp add: is_range_order_def example_config_def)
  have h2: "\<forall>(name, addr) \<in> set (routes example_config). \<not> HasSuffix ''other.net.'' name"
    by (simp add: example_config_def HasSuffix_def)
  have v: "select_upstream [(''example.com.'', ''10.0.0.1:53'')] 7 ''other.net.'' = Inr ''9.9.9.9:53''"
    by (simp add: select_upstream_def HasSuffix_def randomPublicServer_eq publicServer_def)
  show ?thesis
    using h1 h2 v
      select_falls_back_to_pool [of "[(''example.com.'', ''10.0.0.1:53'')]" 7 "''other.net.''"
        "routes example_config"]
    by (auto simp: HasSuffix_def)
qed

text \<open>
  Claim C7. For a query that is not a transfer the forwarder makes one exchange with the
  chosen upstream, over tcp when the client's address is a TCP address and over udp
  otherwise. When the exchange gives a reply, that reply is written to the client as it
  is; when it gives an error, the failure response follows. The exchange is the only
  call to an upstream in the run: no second attempt, no other upstream.
\<close>
theorem proxy_ordinary_query:
  assumes "\<not> isTransfer req"
    and "transport = (if is_TCPAddr w then ''tcp'' else ''udp'')"
  shows "(\<forall>resp. Exchange_result wd transport req addr = Inr resp \<longrightarrow>
            proxy wd addr w req = [Exchange transport req addr, WriteMsg resp])
    \<and> (\<forall>err. Exchange_result wd transport req addr = Inl err \<longrightarrow>
            proxy wd addr w req = [Exchange transport req addr, HandleFailed req])
    \<and> filter is_upstream_call (proxy wd addr w req) = [Exchange transport req addr]"
  using assms by (auto simp: proxy_def Let_def split: sum.splits)

theorem proxy_ordinary_query_witness:
  "\<not> isTransfer a_query
    \<and> proxy answering_world ''10.0.0.1:53'' (TCPAddr ''192.0.2.7:4242'') a_query
        = [Exchange ''tcp'' a_query ''10.0.0.1:53'', WriteMsg (answer_of a_query)]
    \<and> proxy answering_world ''10.0.0.1:53'' (UDPAddr ''192.0.2.7:4242'') a_query
        = [Exchange ''udp'' a_query ''10.0.0.1:53'', WriteMsg (answer_of a_query)]
    \<and> proxy unreachable_world ''10.0.0.1:53'' (UDPAddr ''192.0.2.7:4242'') a_query
        = [Exchange ''udp'' a_query ''10.0.0.1:53'', HandleFailed a_query]"
proof -
  have h: "\<not> isTransfer a_query"
    by (simp add: isTransfer_def a_query_def TypeAXFR_def TypeIXFR_def)
  have t1: "''tcp'' = (if is_TCPAddr (TCPAddr ''192.0.2.7:4242'') then ''tcp'' else ''udp'')"
    by simp
  have t2: "''udp'' = (if is_TCPAddr (UDPAddr ''192.0.2.7:4242'') then ''tcp'' else ''udp'')"
    by simp
  have e1: "Exchange_result answering_world t a_query a = Inr (answer_of a_query)" for t a
    by (simp add: answering_world_def)
  have e2: "Exchange_result unreachable_world t a_query a = Inl ''i/o timeout''" for t a
    by (simp add: unreachable_world_def)
  show ?thesis
    using h e1 e2
      proxy_ordinary_query [OF h t1, of answering_world "''10.0.0.1:53''"]
      proxy_ordinary_query [OF h t2, of answering_world "''10.0.0.1:53''"]
      proxy_ordinary_query [OF h t2, of unreachable_world "''10.0.0.1:53''"]
    by simp
qed

text \<open>
  Claim C1, as stated, fails in its second half. The key of the route configured as
  \<^verbatim>\<open>example.com=10.0.0.1:53\<close> is stored as \<^verbatim>\<open>example.com.\<close>, and the name
  \<^verbatim>\<open>notexample.com.\<close> ends with it: the route is selected (its target is not in the pool,
  so the address does not come from the fallback) and the query goes to it.
\<close>
theorem suffix_match_unaligned_counterexample:
  "main_config ''example.com=10.0.0.1:53'' ''1.2.3.4,::1'' = Inr example_config
    \<and> HasSuffix ''notexample.com.'' ''example.com.''
    \<and> ''10.0.0.1:53'' \<notin> set publicServer
    \<and> select_upstream (routes example_config) 0 ''notexample.com.'' = Inr ''10.0.0.1:53''
    \<and> route example_config answering_world (UDPAddr ''192.0.2.7:4242'') notexample_query
        = Inr [Exchange ''udp'' notexample_query ''10.0.0.1:53'',
               WriteMsg (answer_of notexample_query)]"
proof -
  have "main_config ''example.com=10.0.0.1:53'' ''1.2.3.4,::1'' = Inr example_config"
    by (simp add: main_config_def validHostPort_def SplitHostPort_def HasSuffix_def
        numeral_2_eq_2 example_config_def)
  moreover have "HasSuffix ''notexample.com.'' ''example.com.''"
    by (simp add: HasSuffix_def)
  moreover have "''10.0.0.1:53'' \<notin> set publicServer"
    by (simp add: publicServer_def)
  moreover have sel: "select_upstream (routes example_config) 0 ''notexample.com.''
      = Inr ''10.0.0.1:53''"
    by (simp add: select_upstream_def example_config_def HasSuffix_def)
  moreover have "route example_config answering_world (UDPAddr ''192.0.2.7:4242'')
      notexample_query
      = Inr [Exchange ''udp'' notexample_query ''10.0.0.1:53'',
             WriteMsg (answer_of notexample_query)]"
    by (simp add: route_def allowed_def proxy_def isTransfer_def go_index_def
        select_upstream_def HasSuffix_def notexample_query_def answering_world_def
        TypeAXFR_def TypeIXFR_def)
  ultimately show ?thesis by blast
qed

text \<open>
  Claim C1, amended. Every key of the routing table that \<^verbatim>\<open>main\<close> builds ends with a dot,
  and the match is a comparison of trailing bytes, not aligned at a label: a route whose
  key is the only one that the name ends with is selected whatever precedes the key in
  the name, with or without a dot before it.
\<close>
theorem route_keys_dotted_plain_suffix:
  assumes "main_config routeList allowTransfer = Inr cfg"
    and "(name, addr) \<in> set (routes cfg)"
  shows "HasSuffix name ''.''
    \<and> (\<forall>order src pre.
          is_range_order (routes cfg) order
          \<and> (\<forall>(name', addr') \<in> set (routes cfg). name' \<noteq> name \<longrightarrow> \<not> HasSuffix (pre @ name) name')
          \<longrightarrow> select_upstream order src (pre @ name) = Inr addr)"
proof -
  have "HasSuffix name ''.''"
    using main_config_routes(2) [OF assms(1)] assms(2) by auto
  moreover have "select_upstream order src (pre @ name) = Inr addr"
    if "is_range_order (routes cfg) order"
      and "\<forall>(name', addr') \<in> set (routes cfg). name' \<noteq> name \<longrightarrow> \<not> HasSuffix (pre @ name) name'"
    for order src pre
  proof -
    have "HasSuffix (pre @ name) name" by (simp add: HasSuffix_def)
    with that(1) assms(2) show ?thesis
      using that(2) by (rule select_upstream_only_match)
  qed
  ultimately show ?thesis by blast
qed

theorem route_keys_dotted_plain_suffix_witness:
  "main_config ''example.com=10.0.0.1:53'' ''1.2.3.4,::1'' = Inr example_config
    \<and> (''example.com.'', ''10.0.0.1:53'') \<in> set (routes example_config)
    \<and> HasSuffix ''example.com.'' ''.''
    \<and> is_range_order (routes example_config) [(''example.com.'', ''10.0.0.1:53'')]
    \<and> select_upstream [(''example.com.'', ''10.0.0.1:53'')] 0 (''not'' @ ''example.com.'')
        = Inr ''10.0.0.1:53''"
proof -
  have h1: "main_config ''example.com=10.0.0.1:53'' ''1.2.3.4,::1'' = Inr example_config"
    by (simp add: main_config_def validHostPort_def SplitHostPort_def HasSuffix_def numeral_2_eq_2
        example_config_def)
  have h2: "(''example.com.'', ''10.0.0.1:53'') \<in> set (routes example_config)"
    by (simp add: example_config_def)
  have h3: "is_range_order (routes example_config) [(''example.com.'', ''10.0.0.1:53'')]"
    by (simp add: is_range_order_def example_config_def)
  have h4: "\<forall>(name', addr') \<in> set (routes example_config).
      name' \<noteq> ''example.com.'' \<longrightarrow> \<not> HasSuffix (''not'' @ ''example.com.'') name'"
    by (simp add: example_config_def)
  from route_keys_dotted_plain_suffix [OF h1 h2]
  have "HasSuffix ''example.com.'' ''.''"
    and "select_upstream [(''example.com.'', ''10.0.0.1:53'')] 0 (''not'' @ ''example.com.'')
        = Inr ''10.0.0.1:53''"
    using h3 h4 by blast+
  with h1 h2 h3 show ?thesis by blast
qed

text \<open>
  Claim C9, as stated, equates an empty host with a failed split. For the address
  \<^verbatim>\<open>:53\<close>, the string of a TCP address without IP, the split succeeds with an empty host,
  and with an empty \<^verbatim>\<open>-allow-transfer\<close> the transfer is authorized.
\<close>
theorem empty_allow_list_counterexample:
  "main_config [] [] = Inr \<lparr>routes = [], transferIPs = [[]]\<rparr>
    \<and> isTransfer axfr_query
    \<and> SplitHostPort (addr_String (TCPAddr '':53'')) = Inr ([], ''53'')
    \<and> allowed \<lparr>routes = [], transferIPs = [[]]\<rparr> (TCPAddr '':53'') axfr_query"
  by (simp add: main_config_def allowed_def isTransfer_def axfr_query_def remote_host_def
      SplitHostPort_def)

text \<open>
  Claim C9, amended. With an empty \<^verbatim>\<open>-allow-transfer\<close> the allow-list is the one-element
  list of the empty string. A transfer query is then authorized exactly when the split of
  the client's address gives an empty host: whenever the split fails, and else only for
  an address of the form \<^verbatim>\<open>:port\<close> or \<^verbatim>\<open>[]:port\<close>. Every transfer from an address
  with a host and a port that are not empty (\<^verbatim>\<open>validHostPort\<close>) is denied.
\<close>
theorem empty_allow_transfer_flag:
  assumes "main_config routeList [] = Inr cfg" and "isTransfer req"
  shows "transferIPs cfg = [[]]
    \<and> (allowed cfg w req \<longleftrightarrow> remote_host w = [])
    \<and> ((\<exists>err. SplitHostPort (addr_String w) = Inl err) \<longrightarrow> allowed cfg w req)
    \<and> (allowed cfg w req \<longleftrightarrow>
          (\<exists>err. SplitHostPort (addr_String w) = Inl err)
          \<or> (\<exists>port. addr_String w = CHR '':'' # port \<or> addr_String w = ''[]:'' @ port))
    \<and> (validHostPort (addr_String w) \<longrightarrow> \<not> allowed cfg w req)"
proof -
  have ips: "transferIPs cfg = [[]]"
    using main_config_routes(4) [OF assms(1)] by simp
  then have al: "allowed cfg w req \<longleftrightarrow> remote_host w = []"
    using assms(2) by (auto simp: allowed_iff)
  have err: "remote_host w = []" if "SplitHostPort (addr_String w) = Inl e" for e
    using that by (simp add: remote_host_def)
  have valid: "remote_host w \<noteq> []" if "validHostPort (addr_String w)"
    using that by (auto simp: validHostPort_def remote_host_def split: sum.splits if_splits)
  have shape: "(\<exists>port. addr_String w = CHR '':'' # port \<or> addr_String w = ''[]:'' @ port)"
    if "remote_host w = []" and "\<forall>e. SplitHostPort (addr_String w) \<noteq> Inl e"
  proof -
    from that obtain p where "SplitHostPort (addr_String w) = Inr ([], p)"
      by (auto simp: remote_host_def split: sum.splits)
    then show ?thesis by (auto dest: SplitHostPort_empty_host)
  qed
  have rev: "remote_host w = []"
    if "addr_String w = CHR '':'' # port \<or> addr_String w = ''[]:'' @ port"
      and "\<forall>e. SplitHostPort (addr_String w) \<noteq> Inl e" for port
    using that
    by (auto simp: remote_host_def SplitHostPort_def Let_def split: sum.splits option.splits if_splits)
  from ips al err valid shape rev show ?thesis by blast
qed

theorem empty_allow_transfer_flag_witness:
  "main_config [] [] = Inr \<lparr>routes = [], transferIPs = [[]]\<rparr>
    \<and> isTransfer axfr_query
    \<and> validHostPort (addr_String (TCPAddr ''1.2.3.4:4242''))
    \<and> \<not> allowed \<lparr>routes = [], transferIPs = [[]]\<rparr> (TCPAddr ''1.2.3.4:4242'') axfr_query
    \<and> SplitHostPort (addr_String (OtherAddr ''<nil>'')) = Inl (AddrError missingPort ''<nil>'')
    \<and> allowed \<lparr>routes = [], transferIPs = [[]]\<rparr> (OtherAddr ''<nil>'') axfr_query"
proof -
  have h1: "main_config [] [] = Inr \<lparr>routes = [], transferIPs = [[]]\<rparr>"
    by (simp add: main_config_def)
  have h2: "isTransfer axfr_query"
    by (simp add: isTransfer_def axfr_query_def)
  have v: "validHostPort (addr_String (TCPAddr ''1.2.3.4:4242''))"
    by (simp add: validHostPort_def SplitHostPort_def)
  have e: "SplitHostPort (addr_String (OtherAddr ''<nil>'')) = Inl (AddrError missingPort ''<nil>'')"
    by (simp add: SplitHostPort_def)
  have "\<not> allowed \<lparr>routes = [], transferIPs = [[]]\<rparr> (TCPAddr ''1.2.3.4:4242'') axfr_query"
    using v empty_allow_transfer_flag [OF h1 h2, of "TCPAddr ''1.2.3.4:4242''"] by blast
  moreover have "allowed \<lparr>routes = [], transferIPs = [[]]\<rparr> (OtherAddr ''<nil>'') axfr_query"
    using e empty_allow_transfer_flag [OF h1 h2, of "OtherAddr ''<nil>''"] by blast
  ultimately show ?thesis using h1 h2 v e by blast
qed

text \<open>
  Claim C10. The pool entry \<^verbatim>\<open>209.244.0.3\<close> has no port: \<^verbatim>\<open>net.SplitHostPort\<close> fails on
  it, so \<^verbatim>\<open>validHostPort\<close>, the check of configured route targets, is false on it. When
  no key of the table is a suffix of the name and the random index is 3, the selector
  returns this address.
\<close>
theorem pool_entry_without_port:
  "''209.244.0.3'' \<in> set publicServer
    \<and> SplitHostPort ''209.244.0.3'' = Inl (AddrError missingPort ''209.244.0.3'')
    \<and> \<not> validHostPort ''209.244.0.3''
    \<and> ((\<forall>(name, addr) \<in> set order. \<not> HasSuffix qname name) \<longrightarrow>
          select_upstream order 3 qname = Inr ''209.244.0.3'')"
proof -
  have "''209.244.0.3'' \<in> set publicServer"
    by (simp add: publicServer_def)
  moreover have e: "SplitHostPort ''209.244.0.3'' = Inl (AddrError missingPort ''209.244.0.3'')"
    by (rule SplitHostPort_error_no_colon) simp
  moreover from e have "\<not> validHostPort ''209.244.0.3''"
    by (simp add: validHostPort_def)
  moreover have "randomPublicServer 3 = Inr ''209.244.0.3''"
    by (simp add: randomPublicServer_eq publicServer_def)
  then have "select_upstream order 3 qname = Inr ''209.244.0.3''"
    if "\<forall>(name, addr) \<in> set order. \<not> HasSuffix qname name"
    using that route_loop_None_iff [of order qname] by (simp add: select_upstream_def)
  ultimately show ?thesis by blast
qed

theorem pool_entry_without_port_witness:
  "\<not> HasSuffix ''other.net.'' ''example.com.''
    \<and> select_upstream (routes example_config) 3 ''other.net.'' = Inr ''209.244.0.3''
    \<and> \<not> validHostPort ''209.244.0.3''"
proof -
  have h: "\<forall>(name, addr) \<in> set (routes example_config). \<not> HasSuffix ''other.net.'' name"
    by (simp add: example_config_def HasSuffix_def)
  show ?thesis
    using h pool_entry_without_port [of "routes example_config" "''other.net.''"]
    by (simp add: example_config_def)
qed

end
